theory Spec2Isabelle
  imports Main "HOL-Library.Multiset" "HOL-Library.AList" "HOL-Library.Sublist"
begin

section \<open>Python strings and lists\<close>

text \<open>
  A Python \<open>str\<close> is a sequence of Unicode code points. A code point is a natural
  number here, so that the line boundaries and the white space outside ASCII are the ones
  Python uses; \<open>lit\<close> embeds an Isabelle string literal.
\<close>

type_synonym codepoint = nat
type_synonym pystr = "codepoint list"

definition lit :: "string \<Rightarrow> pystr" where
  "lit s = map of_char s"

text \<open>\<open>str.isspace\<close> of one code point: the set \<open>strip\<close>, \<open>lstrip\<close>, \<open>rstrip\<close> and
  the class \<open>\s\<close> of \<open>re\<close> use.\<close>

definition isspace :: "codepoint \<Rightarrow> bool" where
  "isspace c \<longleftrightarrow>
     (0x09 \<le> c \<and> c \<le> 0x0D) \<or> (0x1C \<le> c \<and> c \<le> 0x20) \<or> c = 0x85 \<or> c = 0xA0 \<or>
     c = 0x1680 \<or> (0x2000 \<le> c \<and> c \<le> 0x200A) \<or> c = 0x2028 \<or> c = 0x2029 \<or>
     c = 0x202F \<or> c = 0x205F \<or> c = 0x3000"

text \<open>The line boundaries of \<open>str.splitlines\<close>; the pair CR LF is one boundary.\<close>

definition is_linebreak :: "codepoint \<Rightarrow> bool" where
  "is_linebreak c \<longleftrightarrow>
     c = 0x0A \<or> c = 0x0B \<or> c = 0x0C \<or> c = 0x0D \<or> c = 0x1C \<or> c = 0x1D \<or> c = 0x1E \<or>
     c = 0x85 \<or> c = 0x2028 \<or> c = 0x2029"

fun splitlines_from :: "bool \<Rightarrow> pystr \<Rightarrow> pystr \<Rightarrow> pystr list" where
  "splitlines_from keepends cur [] = (if cur = [] then [] else [cur])"
| "splitlines_from keepends cur (c # cs) =
     (if c = 0x0D \<and> cs \<noteq> [] \<and> hd cs = 0x0A then
        (cur @ (if keepends then [0x0D, 0x0A] else [])) # splitlines_from keepends [] (tl cs)
      else if is_linebreak c then
        (cur @ (if keepends then [c] else [])) # splitlines_from keepends [] cs
      else splitlines_from keepends (cur @ [c]) cs)"

definition splitlines :: "bool \<Rightarrow> pystr \<Rightarrow> pystr list" where
  "splitlines keepends s = splitlines_from keepends [] s"

definition lstrip :: "pystr \<Rightarrow> pystr" where
  "lstrip s = dropWhile isspace s"

definition rstrip :: "pystr \<Rightarrow> pystr" where
  "rstrip s = rev (dropWhile isspace (rev s))"

definition strip :: "pystr \<Rightarrow> pystr" where
  "strip s = lstrip (rstrip s)"

text \<open>\<open>s.rstrip(chars)\<close>, \<open>s.lstrip(chars)\<close> and \<open>s.strip(chars)\<close> with an explicit
  set of characters.\<close>

definition rstrip_chars :: "pystr \<Rightarrow> pystr \<Rightarrow> pystr" where
  "rstrip_chars chars s = rev (dropWhile (\<lambda>c. c \<in> set chars) (rev s))"

definition lstrip_chars :: "pystr \<Rightarrow> pystr \<Rightarrow> pystr" where
  "lstrip_chars chars s = dropWhile (\<lambda>c. c \<in> set chars) s"

definition strip_chars :: "pystr \<Rightarrow> pystr \<Rightarrow> pystr" where
  "strip_chars chars s = lstrip_chars chars (rstrip_chars chars s)"

definition startswith :: "pystr \<Rightarrow> pystr \<Rightarrow> bool" where
  "startswith s pre \<longleftrightarrow> take (length pre) s = pre"

definition endswith :: "pystr \<Rightarrow> pystr \<Rightarrow> bool" where
  "endswith s suf \<longleftrightarrow> length suf \<le> length s \<and> drop (length s - length suf) s = suf"

fun join :: "pystr \<Rightarrow> pystr list \<Rightarrow> pystr" where
  "join sep [] = []"
| "join sep [x] = x"
| "join sep (x # y # ys) = x @ sep @ join sep (y # ys)"

text \<open>Exceptions are values: a function that may raise returns \<open>exn + 'a\<close>.
  \<open>SyntaxError\<close> stands for the class with its subclasses, as \<open>except SyntaxError\<close>
  catches it.\<close>

datatype exn = IndexError | SyntaxError | ValueError | OtherException pystr

text \<open>\<open>xs[i]\<close>: a negative index counts from the end, an index out of range raises.\<close>

definition py_get :: "'a list \<Rightarrow> int \<Rightarrow> exn + 'a" where
  "py_get xs i =
     (let n = int (length xs); j = (if i < 0 then i + n else i)
      in if 0 \<le> j \<and> j < n then Inr (xs ! nat j) else Inl IndexError)"

text \<open>\<open>xs.insert(i, x)\<close>: a negative index counts from the end, and the position is
  clamped to the list, so the call never raises.\<close>

definition py_insert :: "'a list \<Rightarrow> int \<Rightarrow> 'a \<Rightarrow> 'a list" where
  "py_insert xs i x =
     (let n = int (length xs); j = (if i < 0 then max 0 (i + n) else min i n)
      in take (nat j) xs @ x # drop (nat j) xs)"

text \<open>\<open>xs[a:b]\<close> with step 1: negative bounds count from the end, both are clamped.\<close>

definition slice_index :: "nat \<Rightarrow> int \<Rightarrow> nat" where
  "slice_index n i = (if i < 0 then nat (max 0 (i + int n)) else min n (nat i))"

definition py_slice :: "'a list \<Rightarrow> int \<Rightarrow> int \<Rightarrow> 'a list" where
  "py_slice xs a b =
     (let lo = slice_index (length xs) a; hi = slice_index (length xs) b
      in take (hi - lo) (drop lo xs))"

section \<open>The insertion engine (\<open>ui/diff_viewer.py\<close>)\<close>

text \<open>A documentation proposal (\<open>client.DocProposal\<close>). The engine reads \<open>line\<close> and
  \<open>proposed_doc\<close> only; the two optional snippets for OpenAPI and Postman are further
  fields of the record scheme.\<close>

record DocProposal =
  symbol_name :: pystr
  line :: int
  proposed_doc :: pystr

text \<open>
  The search for the first body line:
  \<^verbatim>\<open>while body_start < len(lines) and lines[body_start - 1].rstrip().endswith(","):
      body_start += 1\<close>
\<close>

function find_body_start :: "pystr list \<Rightarrow> int \<Rightarrow> exn + int" where
  "find_body_start lines body_start =
     (if body_start < int (length lines) then
        (case py_get lines (body_start - 1) of
           Inl e \<Rightarrow> Inl e
         | Inr l \<Rightarrow>
             if endswith (rstrip l) (lit '','') then find_body_start lines (body_start + 1)
             else Inr body_start)
      else Inr body_start)"
  by pat_completeness auto
termination
  by (relation "measure (\<lambda>(lines, body_start). nat (int (length lines) - body_start))") auto

text \<open>Every line of the doc block that is not blank gets the margin; the block ends
  with one newline.\<close>

definition indent_doc :: "pystr \<Rightarrow> pystr \<Rightarrow> pystr" where
  "indent_doc margin doc =
     join (lit ''\<newline>'')
       (map (\<lambda>l. if strip l \<noteq> [] then margin @ l else l)
            (splitlines False (rstrip_chars (lit ''\<newline>'') doc)))
     @ lit ''\<newline>''"

text \<open>One pass of the loop over the sorted proposals: the list of lines after it.\<close>

definition apply_one :: "pystr \<Rightarrow> pystr list \<Rightarrow> 'a DocProposal_scheme \<Rightarrow> exn + pystr list" where
  "apply_one language lines prop =
     (let insert_at = DocProposal.line prop - 1 in
      if insert_at < 0 \<or> insert_at > int (length lines) then Inr lines
      else
        let doc = proposed_doc prop;
            doc = (if \<not> endswith doc (lit ''\<newline>'') then doc @ lit ''\<newline>'' else doc)
        in case (if insert_at < int (length lines) then py_get lines insert_at else Inr []) of
             Inl e \<Rightarrow> Inl e
           | Inr func_line \<Rightarrow>
               let indent = length func_line - length (lstrip func_line);
                   indent_str = replicate indent 0x20
               in if language = lit ''python'' then
                    (case find_body_start lines (insert_at + 1) of
                       Inl e \<Rightarrow> Inl e
                     | Inr body_start \<Rightarrow>
                         Inr (py_insert lines body_start
                                (indent_doc (indent_str @ lit ''    '') doc)))
                  else Inr (py_insert lines insert_at (indent_doc indent_str doc)))"

fun apply_all :: "pystr \<Rightarrow> pystr list \<Rightarrow> 'a DocProposal_scheme list \<Rightarrow> exn + pystr list" where
  "apply_all language lines [] = Inr lines"
| "apply_all language lines (prop # props) =
     (case apply_one language lines prop of
        Inl e \<Rightarrow> Inl e
      | Inr lines' \<Rightarrow> apply_all language lines' props)"

text \<open>\<open>sorted(proposals, key=lambda p: p.line, reverse=True)\<close> is a stable sort into
  descending line order: proposals with the same line keep their order.\<close>

definition sorted_props :: "'a DocProposal_scheme list \<Rightarrow> 'a DocProposal_scheme list" where
  "sorted_props proposals = sort_key (\<lambda>p. - DocProposal.line p) proposals"

definition apply_proposals_to_source ::
  "pystr \<Rightarrow> 'a DocProposal_scheme list \<Rightarrow> pystr \<Rightarrow> exn + pystr" where
  "apply_proposals_to_source source proposals language =
     (case apply_all language (splitlines True source) (sorted_props proposals) of
        Inl e \<Rightarrow> Inl e
      | Inr lines \<Rightarrow> Inr (concat lines))"

text \<open>A proposal is anchored in a file of \<open>n\<close> lines when its 0-based index
  \<open>line - 1\<close> is one of the insertion positions \<open>0, ..., n\<close>: the guard of the loop,
  read on the source as it was split.\<close>

definition anchored :: "nat \<Rightarrow> 'a DocProposal_scheme \<Rightarrow> bool" where
  "anchored n p \<longleftrightarrow> 0 \<le> DocProposal.line p - 1 \<and> DocProposal.line p - 1 \<le> int n"

text \<open>
  What an insertion adds to the list of lines, for the statements below: the doc of the
  proposal, ended by a newline as the loop does it, behind a margin of spaces; for the
  language \<open>python\<close> the margin has the four spaces of the body level at least.
\<close>

definition with_newline :: "pystr \<Rightarrow> pystr" where
  "with_newline doc = (if \<not> endswith doc (lit ''\<newline>'') then doc @ lit ''\<newline>'' else doc)"

definition doc_block_of :: "pystr \<Rightarrow> pystr \<Rightarrow> 'a DocProposal_scheme \<Rightarrow> bool" where
  "doc_block_of language b p \<longleftrightarrow>
     (\<exists>k. (if language = lit ''python'' then 4 else 0) \<le> k \<and>
          b = indent_doc (replicate k 0x20) (with_newline (proposed_doc p)))"

section \<open>Detected symbols (\<open>languages/base.py\<close>)\<close>

datatype symbol_type = Function | Class | Endpoint

record SymbolInfo =
  name :: pystr
  line :: int
  type :: symbol_type
  has_docs :: bool
  endpoint_method :: "pystr option"
  endpoint_path :: "pystr option"
  source_lines :: "pystr list"

section \<open>The grammar-based analyzer (\<open>languages/python_analyzer.py\<close>)\<close>

text \<open>
  \<open>str.upper\<close> and \<open>str.lower\<close> follow the Unicode case tables, which are Python's own:
  the two functions are parameters of the analyzers, \<open>upper u s\<close> for \<open>s.upper()\<close> and
  \<open>lower u s\<close> for \<open>s.lower()\<close>. \<open>ascii_casing\<close> is what they do on a string of ASCII
  characters; it stands for them where a theorem evaluates an analyzer on ASCII text.
\<close>

record casing =
  upper :: "pystr \<Rightarrow> pystr"
  lower :: "pystr \<Rightarrow> pystr"

definition ascii_casing :: casing where
  "ascii_casing =
     \<lparr>upper = map (\<lambda>c. if 0x61 \<le> c \<and> c \<le> 0x7A then c - 0x20 else c),
      lower = map (\<lambda>c. if 0x41 \<le> c \<and> c \<le> 0x5A then c + 0x20 else c)\<rparr>"

text \<open>
  The part of Python's \<open>ast\<close> the analyzer reads. The value of a constant is a string,
  an integer (not a \<open>bool\<close>), or another value (a float, \<open>None\<close>, \<open>True\<close>, bytes, ...)
  given by the text \<open>str()\<close> makes of it. A keyword argument is the pair of \<open>kw.arg\<close>
  (\<open>None\<close> for \<open>**kwargs\<close>) and \<open>kw.value\<close>.
\<close>

datatype const_value = StrConst pystr | IntConst int | OtherConst pystr

text \<open>
  \<open>str(value)\<close>. On an integer of more than \<open>sys.int_info.default_max_str_digits\<close>
  decimal digits it raises \<open>ValueError\<close>; on every other constant it returns.
\<close>

definition int_max_str_digits :: nat where
  "int_max_str_digits = 4300"

fun decimal :: "nat \<Rightarrow> pystr" where
  "decimal n = (if n < 10 then [0x30 + n] else decimal (n div 10) @ [0x30 + n mod 10])"

definition str_int :: "int \<Rightarrow> pystr" where
  "str_int n = (if n < 0 then 0x2D # decimal (nat (- n)) else decimal (nat n))"

fun py_str :: "const_value \<Rightarrow> exn + pystr" where
  "py_str (StrConst s) = Inr s"
| "py_str (IntConst n) =
     (if 10 ^ int_max_str_digits \<le> \<bar>n\<bar> then Inl ValueError else Inr (str_int n))"
| "py_str (OtherConst rendering) = Inr rendering"

text \<open>The integer literal \<open>0xff...f\<close> of 5000 hexadecimal digits.\<close>

definition hex_5000_digits :: int where
  "hex_5000_digits = 16 ^ 5000 - 1"

datatype expr =
    Call expr "expr list" "(pystr option \<times> expr) list"
  | Attribute expr pystr
  | Name pystr
  | Constant const_value
  | ListExpr "expr list"
  | OtherExpr

text \<open>
  Statements. \<open>FunctionDef\<close> and \<open>AsyncFunctionDef\<close> carry \<open>name\<close>,
  \<open>decorator_list\<close>, \<open>body\<close>, \<open>lineno\<close> and \<open>end_lineno\<close> (\<open>None\<close> when the node has
  no such attribute); \<open>Expr\<close> is an expression statement; \<open>Other\<close> is any other node,
  with its child nodes (a module, a class, a loop, a handler, ...). Expressions hold no
  statements, so they are left out of the children that \<open>ast.walk\<close> visits.
\<close>

datatype node =
    FunctionDef pystr "expr list" "node list" int "int option"
  | AsyncFunctionDef pystr "expr list" "node list" int "int option"
  | Expr expr
  | Other "node list"

definition http_verbs :: "pystr list" where
  "http_verbs = [lit ''GET'', lit ''POST'', lit ''PUT'', lit ''DELETE'', lit ''PATCH'',
                 lit ''HEAD'', lit ''OPTIONS'']"

text \<open>The first constant among the elements of a \<open>methods=[...]\<close> list.\<close>

fun first_constant :: "expr list \<Rightarrow> const_value option" where
  "first_constant [] = None"
| "first_constant (Constant c # elts) = Some c"
| "first_constant (e # elts) = first_constant elts"

text \<open>The loop over the keywords of a route decorator: the method it returns, if any,
  or the exception of \<open>str(elt.value)\<close>.\<close>

fun route_method :: "casing \<Rightarrow> (pystr option \<times> expr) list \<Rightarrow> exn + pystr option" where
  "route_method u [] = Inr None"
| "route_method u ((arg, ListExpr elts) # keywords) =
     (case (if arg = Some (lit ''methods'') then first_constant elts else None) of
        Some c \<Rightarrow>
          (case py_str c of
             Inl e \<Rightarrow> Inl e
           | Inr s \<Rightarrow> Inr (Some (upper u s)))
      | None \<Rightarrow> route_method u keywords)"
| "route_method u ((arg, v) # keywords) = route_method u keywords"

text \<open>\<open>decorator.args and isinstance(decorator.args[0], ast.Constant)\<close>, with the
  constant.\<close>

fun first_arg_constant :: "expr list \<Rightarrow> const_value option" where
  "first_arg_constant (Constant c # args) = Some c"
| "first_arg_constant args = None"

text \<open>\<open>_decorator_to_endpoint\<close>: the pair of method and path, \<open>None\<close>, or the exception
  a call of \<open>str()\<close> raises.\<close>

fun decorator_to_endpoint :: "casing \<Rightarrow> expr \<Rightarrow> exn + (pystr \<times> pystr) option" where
  "decorator_to_endpoint u (Call (Attribute receiver attr) args keywords) =
     (let method_name = upper u attr in
      case (if method_name \<in> set http_verbs then
              (case first_arg_constant args of
                 None \<Rightarrow> Inr None
               | Some c \<Rightarrow>
                   (case py_str c of
                      Inl e \<Rightarrow> Inl e
                    | Inr path \<Rightarrow> Inr (Some (method_name, path))))
            else Inr None) of
        Inl e \<Rightarrow> Inl e
      | Inr (Some r) \<Rightarrow> Inr (Some r)
      | Inr None \<Rightarrow>
          if method_name = lit ''ROUTE'' then
            (case first_arg_constant args of
               None \<Rightarrow> Inr None
             | Some c \<Rightarrow>
                 (case py_str c of
                    Inl e \<Rightarrow> Inl e
                  | Inr path \<Rightarrow>
                      (case route_method u keywords of
                         Inl e \<Rightarrow> Inl e
                       | Inr (Some m) \<Rightarrow> Inr (Some (m, path))
                       | Inr None \<Rightarrow> Inr (Some (lit ''GET'', path)))))
          else Inr None)"
| "decorator_to_endpoint u decorator = Inr None"

fun has_docstring :: "node list \<Rightarrow> bool" where
  "has_docstring (Expr (Constant (StrConst s)) # body) = True"
| "has_docstring body = False"

text \<open>The loop over \<open>node.decorator_list\<close>: the first decorator that is an endpoint.\<close>

fun first_endpoint :: "casing \<Rightarrow> expr list \<Rightarrow> exn + (pystr \<times> pystr) option" where
  "first_endpoint u [] = Inr None"
| "first_endpoint u (decorator # decorators) =
     (case decorator_to_endpoint u decorator of
        Inl e \<Rightarrow> Inl e
      | Inr (Some r) \<Rightarrow> Inr (Some r)
      | Inr None \<Rightarrow> first_endpoint u decorators)"

text \<open>The body of the loop over the nodes for one definition: the symbol it appends,
  if any. The decorators are read before \<open>has_docs\<close> is tested.\<close>

definition symbol_of_def ::
  "casing \<Rightarrow> pystr list \<Rightarrow> pystr \<Rightarrow> expr list \<Rightarrow> node list \<Rightarrow> int \<Rightarrow> int option
     \<Rightarrow> exn + SymbolInfo option" where
  "symbol_of_def u lines nm decorator_list body lineno end_lineno =
     (if startswith nm (lit ''__'') \<and> nm \<noteq> lit ''__init__'' then Inr None
      else
        let has_docs = has_docstring body in
        case first_endpoint u decorator_list of
          Inl e \<Rightarrow> Inl e
        | Inr result \<Rightarrow>
            if \<not> has_docs then
              let start = lineno - 1;
                  end' = (case end_lineno of
                            Some e \<Rightarrow> min e (start + 30)
                          | None \<Rightarrow> start + 10)
              in Inr (Some \<lparr>name = nm, line = lineno,
                        type = (case result of Some r \<Rightarrow> Endpoint | None \<Rightarrow> Function),
                        has_docs = False,
                        endpoint_method = map_option fst result,
                        endpoint_path = map_option snd result,
                        source_lines = py_slice lines start end'\<rparr>)
            else Inr None)"

fun symbol_of :: "casing \<Rightarrow> pystr list \<Rightarrow> node \<Rightarrow> exn + SymbolInfo option" where
  "symbol_of u lines (FunctionDef nm decorator_list body lineno end_lineno) =
     symbol_of_def u lines nm decorator_list body lineno end_lineno"
| "symbol_of u lines (AsyncFunctionDef nm decorator_list body lineno end_lineno) =
     symbol_of_def u lines nm decorator_list body lineno end_lineno"
| "symbol_of u lines other = Inr None"

text \<open>\<open>ast.walk\<close>: breadth first, from a queue that starts with the tree.\<close>

fun children :: "node \<Rightarrow> node list" where
  "children (FunctionDef nm decorator_list body lineno end_lineno) = body"
| "children (AsyncFunctionDef nm decorator_list body lineno end_lineno) = body"
| "children (Expr e) = []"
| "children (Other nodes) = nodes"

lemma sum_list_Suc: "sum_list (map (\<lambda>c. Suc (f c)) xs) = sum_list (map f xs) + length xs"
  by (induction xs) simp_all

lemma size_children: "sum_list (map (\<lambda>c. Suc (size c)) (children n)) \<le> size n"
  by (cases n) (simp_all add: size_list_conv_sum_list sum_list_Suc)

function walk_queue :: "node list \<Rightarrow> node list" where
  "walk_queue [] = []"
| "walk_queue (n # todo) = n # walk_queue (todo @ children n)"
  by pat_completeness auto
termination
  by (relation "measure (\<lambda>todo. sum_list (map (\<lambda>c. Suc (size c)) todo))")
    (simp_all add: size_children less_Suc_eq_le)

definition walk :: "node \<Rightarrow> node list" where
  "walk tree = walk_queue [tree]"

text \<open>The loop over the nodes: the symbols in the order of the walk, or the first
  exception.\<close>

fun collect_symbols :: "casing \<Rightarrow> pystr list \<Rightarrow> node list \<Rightarrow> exn + SymbolInfo list" where
  "collect_symbols u lines [] = Inr []"
| "collect_symbols u lines (n # nodes) =
     (case symbol_of u lines n of
        Inl e \<Rightarrow> Inl e
      | Inr found \<Rightarrow>
          (case collect_symbols u lines nodes of
             Inl e \<Rightarrow> Inl e
           | Inr symbols \<Rightarrow>
               Inr (case found of None \<Rightarrow> symbols | Some s \<Rightarrow> s # symbols)))"

text \<open>
  \<open>PythonAnalyzer.analyze\<close>. The parser \<open>ast.parse\<close> is Python's own: it is a
  parameter, a function that returns the module or the exception it raises.
\<close>

definition python_analyze ::
  "casing \<Rightarrow> (pystr \<Rightarrow> exn + node) \<Rightarrow> pystr \<Rightarrow> exn + SymbolInfo list" where
  "python_analyze u parse content =
     (case parse content of
        Inl SyntaxError \<Rightarrow> Inr []
      | Inl e \<Rightarrow> Inl e
      | Inr tree \<Rightarrow> collect_symbols u (splitlines False content) (walk tree))"

section \<open>The pattern-based analyzer (\<open>languages/typescript_analyzer.py\<close>)\<close>

text \<open>
  \<open>_JSDOC_RE = /\*\*[\s\S]*?\*/\s*$\<close>, searched without the multi-line flag.
  \<open>ws_to_end\<close> is \<open>\s*$\<close> at a position: white space up to the end of the string, where
  \<open>$\<close> also matches before a newline that ends the string. \<open>comment_close\<close> is
  \<open>[\s\S]*?\*/\s*$\<close> at a position: some closing token from there on, followed by
  \<open>\s*$\<close>. \<open>jsdoc_search\<close> is \<open>re.search\<close>: the opening token at some position, followed
  by \<open>comment_close\<close>.
\<close>

fun ws_to_end :: "pystr \<Rightarrow> bool" where
  "ws_to_end [] = True"
| "ws_to_end (c # cs) = ((c = 0x0A \<and> cs = []) \<or> (isspace c \<and> ws_to_end cs))"

fun comment_close :: "pystr \<Rightarrow> bool" where
  "comment_close [] = False"
| "comment_close (c # cs) =
     ((startswith (c # cs) (lit ''*/'') \<and> ws_to_end (drop 2 (c # cs))) \<or> comment_close cs)"

fun jsdoc_search :: "pystr \<Rightarrow> bool" where
  "jsdoc_search [] = False"
| "jsdoc_search (c # cs) =
     ((startswith (c # cs) (lit ''/**'') \<and> comment_close (drop 3 (c # cs))) \<or> jsdoc_search cs)"

definition has_jsdoc_before :: "pystr list \<Rightarrow> int \<Rightarrow> bool" where
  "has_jsdoc_before lines func_line_idx =
     (if func_line_idx = 0 then False
      else
        let search_start = max 0 (func_line_idx - 20);
            block = join (lit ''\<newline>'') (py_slice lines search_start func_line_idx)
        in jsdoc_search block)"

text \<open>
  The claim's reading of the same test: somewhere in the text an opening token \<open>/**\<close>
  and, after it, a closing token \<open>*/\<close>, whatever follows.
\<close>

fun closing_token_in :: "pystr \<Rightarrow> bool" where
  "closing_token_in [] = False"
| "closing_token_in (c # cs) = (startswith (c # cs) (lit ''*/'') \<or> closing_token_in cs)"

fun block_comment_anywhere :: "pystr \<Rightarrow> bool" where
  "block_comment_anywhere [] = False"
| "block_comment_anywhere (c # cs) =
     ((startswith (c # cs) (lit ''/**'') \<and> closing_token_in (drop 3 (c # cs)))
      \<or> block_comment_anywhere cs)"

text \<open>
  The matches of the module's other patterns on the content are parameters, as the
  \<open>re\<close> engine gives them: for \<open>_NESTJS_CONTROLLER_RE.search\<close>, \<open>None\<close> or the first
  group of the match (itself \<open>None\<close> when the decorator has no argument); for each
  \<open>finditer\<close>, the list of \<open>m.start()\<close> with the groups, \<open>func_matches\<close> holding one
  list for each pattern of \<open>_FUNC_PATTERNS\<close> in order.
\<close>

record regex_matches =
  controller_match :: "pystr option option"
  nestjs_matches :: "(nat \<times> pystr \<times> pystr option) list"
  express_matches :: "(nat \<times> pystr \<times> pystr) list"
  func_matches :: "(nat \<times> pystr) list list"

text \<open>\<open>content[: start].count("\n")\<close>.\<close>

definition line_of :: "pystr \<Rightarrow> nat \<Rightarrow> nat" where
  "line_of content start = length (filter (\<lambda>c. c = 0x0A) (take start content))"

text \<open>\<open>group or ""\<close>.\<close>

definition or_empty :: "pystr option \<Rightarrow> pystr" where
  "or_empty g = (case g of None \<Rightarrow> [] | Some s \<Rightarrow> s)"

definition nest_full_path :: "pystr \<Rightarrow> pystr \<Rightarrow> pystr" where
  "nest_full_path controller_base path_part =
     (let full_path =
            rstrip_chars (lit ''/'')
              (lit ''/'' @ strip_chars (lit ''/'') controller_base @ lit ''/''
                 @ strip_chars (lit ''/'') path_part)
      in if \<not> startswith full_path (lit ''/'') then lit ''/'' @ full_path else full_path)"

text \<open>A \<open>dict\<close> keeps its keys in the order of their first insertion: an association
  list, updated in place.\<close>

type_synonym endpoint_dict = "(nat \<times> pystr \<times> pystr) list"

definition add_nestjs ::
  "casing \<Rightarrow> pystr \<Rightarrow> pystr \<Rightarrow> endpoint_dict \<Rightarrow> nat \<times> pystr \<times> pystr option \<Rightarrow> endpoint_dict" where
  "add_nestjs u content controller_base d m =
     (case m of (start, g1, g2) \<Rightarrow>
        let decorator_line = line_of content start;
            method = upper u g1;
            path_part = or_empty g2;
            full_path = nest_full_path controller_base path_part
        in foldl (\<lambda>d offset. AList.update (decorator_line + offset) (method, full_path) d)
             d [1..<6])"

definition nestjs_endpoints :: "casing \<Rightarrow> regex_matches \<Rightarrow> pystr \<Rightarrow> endpoint_dict" where
  "nestjs_endpoints u ms content =
     (let controller_base =
            (case controller_match ms of None \<Rightarrow> [] | Some g \<Rightarrow> or_empty g)
      in foldl (add_nestjs u content controller_base) [] (nestjs_matches ms))"

definition express_endpoints :: "casing \<Rightarrow> regex_matches \<Rightarrow> pystr \<Rightarrow> endpoint_dict" where
  "express_endpoints u ms content =
     foldl (\<lambda>d m. case m of (start, g1, g2) \<Rightarrow>
              AList.update (line_of content start) (upper u g1, g2) d)
       [] (express_matches ms)"

text \<open>The two proximity loops over the dictionaries, each left at its first hit.\<close>

definition endpoint_near :: "endpoint_dict \<Rightarrow> endpoint_dict \<Rightarrow> nat \<Rightarrow> (pystr \<times> pystr) option" where
  "endpoint_near express nestjs line_no =
     (case List.find (\<lambda>(ep_line, ep). \<bar>int ep_line - int line_no\<bar> \<le> 1) express of
        Some (ep_line, ep) \<Rightarrow> Some ep
      | None \<Rightarrow>
          (case List.find (\<lambda>(ep_line, ep). line_no = ep_line) nestjs of
             Some (ep_line, ep) \<Rightarrow> Some ep
           | None \<Rightarrow> None))"

text \<open>The state of the loops: the symbols so far and \<open>seen_lines\<close>.\<close>

type_synonym detect_state = "SymbolInfo list \<times> nat set"

definition detect_function ::
  "pystr \<Rightarrow> pystr list \<Rightarrow> endpoint_dict \<Rightarrow> endpoint_dict \<Rightarrow> detect_state \<Rightarrow> nat \<times> pystr \<Rightarrow> detect_state" where
  "detect_function content lines express nestjs st m =
     (case (st, m) of ((symbols, seen_lines), (start, nm)) \<Rightarrow>
        let line_no = line_of content start in
        if line_no \<in> seen_lines then (symbols, seen_lines)
        else
          let seen_lines = insert line_no seen_lines in
          if startswith nm (lit ''_'') then (symbols, seen_lines)
          else
            let has_docs = has_jsdoc_before lines (int line_no);
                ep = endpoint_near express nestjs line_no
            in if \<not> has_docs then
                 (symbols @
                    [\<lparr>name = nm, line = int line_no + 1,
                      type = (case ep of Some r \<Rightarrow> Endpoint | None \<Rightarrow> Function),
                      has_docs = False,
                      endpoint_method = map_option fst ep,
                      endpoint_path = map_option snd ep,
                      source_lines =
                        py_slice lines (int line_no)
                          (min (int (length lines)) (int line_no + 30))\<rparr>],
                  seen_lines)
               else (symbols, seen_lines))"

definition replace_char :: "codepoint \<Rightarrow> codepoint \<Rightarrow> pystr \<Rightarrow> pystr" where
  "replace_char old new s = map (\<lambda>c. if c = old then new else c) s"

definition detect_standalone ::
  "casing \<Rightarrow> pystr list \<Rightarrow> detect_state \<Rightarrow> nat \<times> pystr \<times> pystr \<Rightarrow> detect_state" where
  "detect_standalone u lines st item =
     (case (st, item) of ((symbols, seen_lines), (ep_line, ep_method, ep_path)) \<Rightarrow>
        if ep_line \<notin> seen_lines then
          let seen_lines = insert ep_line seen_lines;
              has_docs = has_jsdoc_before lines (int ep_line)
          in if \<not> has_docs then
               (symbols @
                  [\<lparr>name = lower u ep_method @ lit ''_''
                            @ strip_chars (lit ''_'') (replace_char 0x2F 0x5F ep_path),
                    line = int ep_line + 1,
                    type = Endpoint,
                    has_docs = False,
                    endpoint_method = Some ep_method,
                    endpoint_path = Some ep_path,
                    source_lines =
                      py_slice lines (int ep_line)
                        (min (int (length lines)) (int ep_line + 30))\<rparr>],
                seen_lines)
             else (symbols, seen_lines)
        else (symbols, seen_lines))"

definition typescript_analyze :: "casing \<Rightarrow> regex_matches \<Rightarrow> pystr \<Rightarrow> SymbolInfo list" where
  "typescript_analyze u ms content =
     (let lines = splitlines False content;
          nestjs = nestjs_endpoints u ms content;
          express = express_endpoints u ms content;
          st = foldl (\<lambda>st pattern_matches.
                        foldl (detect_function content lines express nestjs) st pattern_matches)
                 ([], {}) (func_matches ms);
          st = foldl (detect_standalone u lines) st express
      in sort_key SymbolInfo.line (fst st))"

text \<open>The invariant of a symbol: method and path are both there or both absent.\<close>

definition endpoint_paired :: "SymbolInfo \<Rightarrow> bool" where
  "endpoint_paired s \<longleftrightarrow> (endpoint_method s = None) = (endpoint_path s = None)"

section \<open>Properties of the insertion engine\<close>

lemma lit_Nil: "lit [] = []"
  by (simp add: lit_def)

lemma lit_Cons: "lit (c # cs) = of_char c # lit cs"
  by (simp add: lit_def)

lemma concat_splitlines_from_keep:
  "keepends \<Longrightarrow> concat (splitlines_from keepends cur s) = cur @ s"
proof (induction keepends cur s rule: splitlines_from.induct)
  case (1 keepends cur)
  then show ?case by simp
next
  case (2 keepends cur c cs)
  show ?case
  proof (cases "c = 0x0D \<and> cs \<noteq> [] \<and> hd cs = 0x0A")
    case True
    then obtain ds where "cs = 0x0A # ds" by (cases cs) auto
    with True "2.IH" (1) "2.prems" show ?thesis by simp
  next
    case False
    with "2.IH" (2, 3) "2.prems" show ?thesis by (cases "is_linebreak c") auto
  qed
qed

lemma concat_splitlines_from:
  "concat (splitlines_from True cur s) = cur @ s"
  by (simp add: concat_splitlines_from_keep)

lemma py_get_in_range:
  "0 \<le> i \<Longrightarrow> i < int (length xs) \<Longrightarrow> py_get xs i = Inr (xs ! nat i)"
  by (simp add: py_get_def)

lemma find_body_start_total:
  "1 \<le> body_start \<Longrightarrow> \<exists>k. find_body_start lines body_start = Inr k \<and> body_start \<le> k"
proof (induction lines body_start rule: find_body_start.induct)
  case (1 lines body_start)
  show ?case
  proof (cases "body_start < int (length lines)")
    case False
    then show ?thesis by simp
  next
    case True
    from True "1.prems" have g: "py_get lines (body_start - 1) = Inr (lines ! nat (body_start - 1))"
      by (simp add: py_get_in_range)
    show ?thesis
    proof (cases "endswith (rstrip (lines ! nat (body_start - 1))) (lit '','')")
      case False
      with True g show ?thesis by simp
    next
      case e: True
      from "1.IH" [OF True g e] "1.prems"
      obtain k where "find_body_start lines (body_start + 1) = Inr k" "body_start + 1 \<le> k"
        by auto
      with True g e show ?thesis by simp
    qed
  qed
qed

lemma length_py_insert: "length (py_insert xs i x) = Suc (length xs)"
  by (simp add: py_insert_def Let_def)

lemma apply_one_skipped:
  "\<not> anchored (length lines) p \<Longrightarrow> apply_one language lines p = Inr lines"
  by (auto simp: apply_one_def anchored_def Let_def)

lemma apply_one_inserted:
  assumes "anchored (length lines) p"
  shows "\<exists>ls. apply_one language lines p = Inr ls \<and> length ls = Suc (length lines)"
proof -
  let ?i = "DocProposal.line p - 1"
  from assms have r: "0 \<le> ?i" "?i \<le> int (length lines)" by (auto simp: anchored_def)
  obtain fl where fl: "(if ?i < int (length lines) then py_get lines ?i else Inr []) = Inr fl"
    using r by (cases "?i < int (length lines)") (auto simp: py_get_in_range)
  obtain k where k: "find_body_start lines (?i + 1) = Inr k"
    using find_body_start_total [of "?i + 1" lines] r by auto
  show ?thesis
    using r fl k unfolding apply_one_def Let_def
    by (auto simp: length_py_insert)
qed

lemma apply_all_below:
  "\<forall>p \<in> set ps. DocProposal.line p - 1 \<le> int (length lines) \<Longrightarrow>
   \<exists>ls. apply_all language lines ps = Inr ls \<and>
        apply_all language lines (filter (\<lambda>p. 0 \<le> DocProposal.line p - 1) ps) = Inr ls \<and>
        length ls = length lines + length (filter (\<lambda>p. 0 \<le> DocProposal.line p - 1) ps)"
proof (induction ps arbitrary: lines)
  case Nil
  then show ?case by simp
next
  case (Cons p ps)
  show ?case
  proof (cases "0 \<le> DocProposal.line p - 1")
    case False
    then have "apply_one language lines p = Inr lines"
      by (simp add: apply_one_skipped anchored_def)
    moreover from Cons.prems have "\<forall>q \<in> set ps. DocProposal.line q - 1 \<le> int (length lines)"
      by simp
    ultimately show ?thesis using Cons.IH [of lines] False by simp
  next
    case True
    with Cons.prems have "anchored (length lines) p" by (simp add: anchored_def)
    from apply_one_inserted [OF this, of language]
    obtain l1 where l1: "apply_one language lines p = Inr l1" "length l1 = Suc (length lines)"
      by blast
    from Cons.prems l1 have "\<forall>q \<in> set ps. DocProposal.line q - 1 \<le> int (length l1)"
      by auto
    from Cons.IH [OF this] l1 True show ?thesis by auto
  qed
qed

lemma apply_all_descending:
  "sorted (map (\<lambda>p. - DocProposal.line p) ps) \<Longrightarrow>
   \<exists>ls. apply_all language lines ps = Inr ls \<and>
        apply_all language lines (filter (anchored (length lines)) ps) = Inr ls \<and>
        length ls = length lines + length (filter (anchored (length lines)) ps)"
proof (induction ps)
  case Nil
  then show ?case by simp
next
  case (Cons p ps)
  show ?case
  proof (cases "DocProposal.line p - 1 \<le> int (length lines)")
    case False
    then have "\<not> anchored (length lines) p" by (simp add: anchored_def)
    moreover from this have "apply_one language lines p = Inr lines"
      by (rule apply_one_skipped)
    moreover from Cons.prems have "sorted (map (\<lambda>p. - DocProposal.line p) ps)" by simp
    ultimately show ?thesis using Cons.IH by simp
  next
    case True
    with Cons.prems have below: "\<forall>q \<in> set (p # ps). DocProposal.line q - 1 \<le> int (length lines)"
      by auto
    then have "filter (anchored (length lines)) (p # ps) =
        filter (\<lambda>p. 0 \<le> DocProposal.line p - 1) (p # ps)"
      by (intro filter_cong) (auto simp: anchored_def)
    with apply_all_below [OF below, of language] show ?thesis by simp
  qed
qed

lemma sorted_sorted_props: "sorted (map (\<lambda>p. - DocProposal.line p) (sorted_props ps))"
  by (simp add: sorted_props_def)

lemma sorted_props_filter: "sorted_props (filter P ps) = filter P (sorted_props ps)"
  by (simp add: sorted_props_def filter_sort)

lemma length_filter_sorted_props:
  "length (filter P (sorted_props ps)) = length (filter P ps)"
proof -
  have "mset (filter P (sorted_props ps)) = mset (filter P ps)"
    by (simp add: sorted_props_def)
  then show ?thesis by (metis size_mset)
qed

text \<open>
  Claim C10. With an empty proposal list the engine returns the source unchanged,
  character for character, for every source text and every language: splitting into
  lines with their line ends and joining again is the identity.
\<close>

theorem empty_proposals_identity:
  "apply_proposals_to_source source [] language = Inr source"
  by (simp add: apply_proposals_to_source_def sorted_props_def splitlines_def
      concat_splitlines_from)

text \<open>
  Claim C1. For every source text, every language and every list of proposals whose line
  numbers are pairwise distinct, the engine returns a result (it does not raise), and
  every permutation of the list gives the same modified source: the engine sorts the
  proposals into descending line order itself.
\<close>

theorem insertion_order_invariant:
  assumes "distinct (map DocProposal.line ps)" and "mset ps = mset qs"
  shows "\<exists>out. apply_proposals_to_source source ps language = Inr out \<and>
               apply_proposals_to_source source qs language = Inr out"
proof -
  from assms(1) have "inj_on (\<lambda>p. - DocProposal.line p) (set ps)"
    by (auto simp: distinct_map inj_on_def)
  with assms(2) have "sorted_props ps = sorted_props qs"
    unfolding sorted_props_def by (rule sort_key_eq_sort_key)
  moreover obtain ls where "apply_all language (splitlines True source) (sorted_props ps) = Inr ls"
    using apply_all_descending [OF sorted_sorted_props] by blast
  ultimately show ?thesis by (simp add: apply_proposals_to_source_def)
qed

theorem insertion_order_invariant_witness:
  "apply_proposals_to_source (lit ''a\<newline>  b\<newline>c\<newline>'')
     [\<lparr>symbol_name = lit ''b'', line = 2, proposed_doc = lit ''/** B */''\<rparr>,
      \<lparr>symbol_name = lit ''c'', line = 3, proposed_doc = lit ''/** C */''\<rparr>]
     (lit ''typescript'')
   = apply_proposals_to_source (lit ''a\<newline>  b\<newline>c\<newline>'')
     [\<lparr>symbol_name = lit ''c'', line = 3, proposed_doc = lit ''/** C */''\<rparr>,
      \<lparr>symbol_name = lit ''b'', line = 2, proposed_doc = lit ''/** B */''\<rparr>]
     (lit ''typescript'')"
  using insertion_order_invariant
    [of "[\<lparr>symbol_name = lit ''b'', line = 2, proposed_doc = lit ''/** B */''\<rparr>,
          \<lparr>symbol_name = lit ''c'', line = 3, proposed_doc = lit ''/** C */''\<rparr>]"
        "[\<lparr>symbol_name = lit ''c'', line = 3, proposed_doc = lit ''/** C */''\<rparr>,
          \<lparr>symbol_name = lit ''b'', line = 2, proposed_doc = lit ''/** B */''\<rparr>]"
        "lit ''a\<newline>  b\<newline>c\<newline>''" "lit ''typescript''"]
  by (auto simp: add_mset_commute)

text \<open>
  Claim C2. On the source \<open>def f(a, b):\<close> / \<open>    return a + b\<close> with the language
  \<open>python\<close> and one proposal at line 1 whose doc is \<open>"""Adds two numbers."""\<close>, the
  engine returns a text of three lines: the definition line, the doc string behind
  exactly four spaces as line 2, and the original return line, unchanged, as line 3.
\<close>

theorem scenario_docstring_insertion:
  \<open>apply_proposals_to_source (lit ''def f(a, b):\<newline>    return a + b\<newline>'')
     [\<lparr>symbol_name = lit ''f'', line = 1, proposed_doc = lit ''"""Adds two numbers."""''\<rparr>]
     (lit ''python'')
   = Inr (lit ''def f(a, b):\<newline>    """Adds two numbers."""\<newline>    return a + b\<newline>'')
   \<and> splitlines False
       (lit ''def f(a, b):\<newline>    """Adds two numbers."""\<newline>    return a + b\<newline>'')
     = [lit ''def f(a, b):'', lit ''    """Adds two numbers."""'', lit ''    return a + b'']\<close>
  by (simp add: apply_proposals_to_source_def sorted_props_def splitlines_def lit_Nil lit_Cons
      is_linebreak_def isspace_def apply_one_def Let_def py_get_def py_insert_def indent_doc_def
      endswith_def rstrip_def lstrip_def strip_def rstrip_chars_def)

lemma replicate_four: "replicate 4 x = [x, x, x, x]"
  by (simp add: numeral_eq_Suc)

lemma four_spaces: "lit ''    '' = replicate 4 0x20"
  by (simp add: lit_Nil lit_Cons replicate_four)

lemma subseq_insertion: "subseq xs (take k xs @ b # drop k xs)"
proof -
  have "subseq (drop k xs) (b # drop k xs)"
    by (rule list_emb_Cons) (rule subseq_order.order_refl)
  with subseq_order.order_refl [of "take k xs"]
  have "subseq (take k xs @ drop k xs) (take k xs @ b # drop k xs)"
    by (rule list_emb_append_mono)
  then show ?thesis by (simp only: append_take_drop_id)
qed

lemma mset_insertion: "mset (take k xs @ b # drop k xs) = add_mset b (mset xs)"
proof -
  have "mset (take k xs @ b # drop k xs) = add_mset b (mset (take k xs @ drop k xs))"
    by (simp only: mset_append mset.simps union_mset_add_mset_right)
  then show ?thesis by simp
qed

lemma apply_one_block:
  assumes "anchored (length lines) p"
  shows "\<exists>b k. apply_one language lines p = Inr (take k lines @ b # drop k lines) \<and>
               doc_block_of language b p \<and> nat (DocProposal.line p - 1) \<le> k \<and>
               k \<le> length lines"
proof -
  let ?i = "DocProposal.line p - 1"
  let ?doc = "with_newline (proposed_doc p)"
  from assms have r: "0 \<le> ?i" "?i \<le> int (length lines)" by (auto simp: anchored_def)
  obtain fl where fl: "(if ?i < int (length lines) then py_get lines ?i else Inr []) = Inr fl"
    using r by (cases "?i < int (length lines)") (auto simp: py_get_in_range)
  let ?ind = "length fl - length (lstrip fl)"
  show ?thesis
  proof (cases "language = lit ''python''")
    case False
    have "apply_one language lines p
          = Inr (take (nat ?i) lines @ indent_doc (replicate ?ind 0x20) ?doc # drop (nat ?i) lines)"
      using r fl False unfolding apply_one_def Let_def with_newline_def
      by (auto simp: py_insert_def Let_def min_def)
    moreover have "doc_block_of language (indent_doc (replicate ?ind 0x20) ?doc) p"
      using False unfolding doc_block_of_def by auto
    ultimately show ?thesis using r by (intro exI [of _ "nat ?i"] exI) auto
  next
    case True
    obtain bs where bs: "find_body_start lines (?i + 1) = Inr bs" "?i + 1 \<le> bs"
      using find_body_start_total [of "?i + 1" lines] r by auto
    let ?k = "nat (min bs (int (length lines)))"
    have "apply_one language lines p
          = Inr (take ?k lines @ indent_doc (replicate (?ind + 4) 0x20) ?doc # drop ?k lines)"
      using r fl True bs unfolding apply_one_def Let_def with_newline_def
      by (auto simp: py_insert_def Let_def four_spaces replicate_add)
    moreover have "doc_block_of language (indent_doc (replicate (?ind + 4) 0x20) ?doc) p"
      using True unfolding doc_block_of_def by (intro exI [of _ "?ind + 4"]) simp
    moreover have "nat ?i \<le> ?k" "?k \<le> length lines" using r bs by auto
    ultimately show ?thesis by blast
  qed
qed

lemma apply_one_past_last:
  assumes "DocProposal.line p - 1 = int (length lines)"
  shows "apply_one language lines p
         = Inr (lines @ [indent_doc (if language = lit ''python'' then lit ''    '' else [])
                           (with_newline (proposed_doc p))])"
proof -
  have "find_body_start lines (int (length lines) + 1) = Inr (int (length lines) + 1)"
    by simp
  with assms show ?thesis
    unfolding apply_one_def Let_def with_newline_def
    by (auto simp: py_insert_def Let_def lstrip_def)
qed

lemma apply_one_subseq:
  assumes "apply_one language lines p = Inr ls"
  shows "subseq lines ls"
proof (cases "anchored (length lines) p")
  case False
  with assms show ?thesis by (simp add: apply_one_skipped)
next
  case True
  from apply_one_block [OF this, of language] assms show ?thesis
    by (auto simp: subseq_insertion)
qed

lemma apply_all_subseq:
  "apply_all language lines ps = Inr ls \<Longrightarrow> subseq lines ls"
proof (induction ps arbitrary: lines)
  case Nil
  then show ?case by simp
next
  case (Cons p ps)
  from Cons.prems obtain l1
    where l1: "apply_one language lines p = Inr l1" "apply_all language l1 ps = Inr ls"
    by (auto split: sum.splits)
  from apply_one_subseq [OF l1(1)] Cons.IH [OF l1(2)] show ?case
    by (rule subseq_order.order_trans)
qed

lemma apply_all_below_blocks:
  "\<forall>p \<in> set ps. DocProposal.line p - 1 \<le> int (length lines) \<Longrightarrow>
   \<exists>ls blocks. apply_all language lines ps = Inr ls \<and>
        list_all2 (doc_block_of language) blocks
          (filter (\<lambda>p. 0 \<le> DocProposal.line p - 1) ps) \<and>
        mset ls = mset lines + mset blocks"
proof (induction ps arbitrary: lines)
  case Nil
  then show ?case by simp
next
  case (Cons p ps)
  show ?case
  proof (cases "0 \<le> DocProposal.line p - 1")
    case False
    then have "apply_one language lines p = Inr lines"
      by (simp add: apply_one_skipped anchored_def)
    moreover from Cons.prems have "\<forall>q \<in> set ps. DocProposal.line q - 1 \<le> int (length lines)"
      by simp
    ultimately show ?thesis using Cons.IH [of lines] False by simp
  next
    case True
    with Cons.prems have "anchored (length lines) p" by (simp add: anchored_def)
    from apply_one_block [OF this, of language]
    obtain b k where b: "apply_one language lines p = Inr (take k lines @ b # drop k lines)"
      "doc_block_of language b p" "k \<le> length lines"
      by blast
    let ?l1 = "take k lines @ b # drop k lines"
    from Cons.prems b(3) have "\<forall>q \<in> set ps. DocProposal.line q - 1 \<le> int (length ?l1)"
      by auto
    from Cons.IH [OF this]
    obtain ls blocks where r: "apply_all language ?l1 ps = Inr ls"
      "list_all2 (doc_block_of language) blocks (filter (\<lambda>p. 0 \<le> DocProposal.line p - 1) ps)"
      "mset ls = mset ?l1 + mset blocks"
      by blast
    from r(3) have "mset ls = add_mset b (mset lines) + mset blocks"
      by (simp only: mset_insertion)
    then have "mset ls = mset lines + mset (b # blocks)"
      by simp
    moreover have "list_all2 (doc_block_of language) (b # blocks)
        (filter (\<lambda>p. 0 \<le> DocProposal.line p - 1) (p # ps))"
      using True b(2) r(2) by simp
    moreover have "apply_all language lines (p # ps) = Inr ls"
      using b(1) r(1) by simp
    ultimately show ?thesis by blast
  qed
qed

lemma apply_all_descending_blocks:
  "sorted (map (\<lambda>p. - DocProposal.line p) ps) \<Longrightarrow>
   \<exists>ls blocks. apply_all language lines ps = Inr ls \<and>
        list_all2 (doc_block_of language) blocks (filter (anchored (length lines)) ps) \<and>
        mset ls = mset lines + mset blocks"
proof (induction ps)
  case Nil
  then show ?case by simp
next
  case (Cons p ps)
  show ?case
  proof (cases "DocProposal.line p - 1 \<le> int (length lines)")
    case False
    then have "\<not> anchored (length lines) p" by (simp add: anchored_def)
    moreover from this have "apply_one language lines p = Inr lines"
      by (rule apply_one_skipped)
    moreover from Cons.prems have "sorted (map (\<lambda>p. - DocProposal.line p) ps)" by simp
    ultimately show ?thesis using Cons.IH by simp
  next
    case True
    with Cons.prems have below: "\<forall>q \<in> set (p # ps). DocProposal.line q - 1 \<le> int (length lines)"
      by auto
    then have "filter (anchored (length lines)) (p # ps) =
        filter (\<lambda>p. 0 \<le> DocProposal.line p - 1) (p # ps)"
      by (intro filter_cong) (auto simp: anchored_def)
    with apply_all_below_blocks [OF below, of language] show ?thesis by simp
  qed
qed

lemma past_end_after_source:
  "sorted (map (\<lambda>p. - DocProposal.line p) qs) \<Longrightarrow>
   \<forall>q \<in> set qs. DocProposal.line q - 1 \<le> int (length lines0) \<Longrightarrow>
   apply_all language (lines0 @ rest) qs = Inr ls \<Longrightarrow>
   p \<in> set qs \<Longrightarrow> DocProposal.line p - 1 = int (length lines0) \<Longrightarrow>
   \<exists>b. doc_block_of language b p \<and> subseq (lines0 @ [b]) ls"
proof (induction qs arbitrary: rest)
  case Nil
  then show ?case by simp
next
  case (Cons q qs)
  let ?n = "length lines0"
  from Cons.prems(1,4,5) have "int ?n \<le> DocProposal.line q - 1" by auto
  with Cons.prems(2) have q: "DocProposal.line q - 1 = int ?n" by simp
  then have "anchored (length (lines0 @ rest)) q" by (simp add: anchored_def)
  from apply_one_block [OF this, of language]
  obtain b k where b:
    "apply_one language (lines0 @ rest) q = Inr (take k (lines0 @ rest) @ b # drop k (lines0 @ rest))"
    "doc_block_of language b q" "nat (DocProposal.line q - 1) \<le> k"
    by blast
  from b(3) q have k: "?n \<le> k" by simp
  let ?rest1 = "take (k - ?n) rest @ b # drop (k - ?n) rest"
  from k have l1: "take k (lines0 @ rest) @ b # drop k (lines0 @ rest) = lines0 @ ?rest1"
    by simp
  from b(1) Cons.prems(3)
  have "apply_all language (take k (lines0 @ rest) @ b # drop k (lines0 @ rest)) qs = Inr ls"
    by (simp del: take_append drop_append)
  then have run: "apply_all language (lines0 @ ?rest1) qs = Inr ls"
    by (simp only: l1)
  show ?case
  proof (cases "p = q")
    case True
    have "subseq [b] ?rest1"
      by (metis list_emb_append2 list_emb_Cons2 list_emb_Nil)
    with subseq_order.order_refl [of lines0] have "subseq (lines0 @ [b]) (lines0 @ ?rest1)"
      by (rule list_emb_append_mono)
    with apply_all_subseq [OF run] have "subseq (lines0 @ [b]) ls"
      by (rule subseq_order.order_trans [rotated])
    with b(2) True show ?thesis by blast
  next
    case False
    with Cons.prems(4) have "p \<in> set qs" by simp
    moreover from Cons.prems(1) have "sorted (map (\<lambda>p. - DocProposal.line p) qs)" by simp
    moreover from Cons.prems(2) have "\<forall>q \<in> set qs. DocProposal.line q - 1 \<le> int ?n" by simp
    ultimately show ?thesis using Cons.IH [OF _ _ run] Cons.prems(5) by blast
  qed
qed

lemma sorted_filter_sorted_props:
  "sorted (map (\<lambda>p. - DocProposal.line p) (filter P (sorted_props ps)))"
  using sorted_sorted_props [of ps] by (rule sorted_filter)

text \<open>
  Claim C3, as the code has it. For every source text, language and proposal list the
  engine returns a result: it never raises. A proposal is skipped when its 0-based index
  \<open>line - 1\<close> is negative or greater than the number of lines of the source, and only
  then: the call gives the same text as the call on the anchored proposals alone. What
  the call adds to the lines of the source, which all stay and keep their order, is one
  block for each anchored proposal, in the order of the loop: the doc of that proposal,
  ended by a newline, behind a margin of spaces. An index equal to the number of lines
  is anchored: the block of such a proposal stands after all the lines of the source,
  and a call with that proposal alone returns the source followed by its doc block,
  with no margin, or with four spaces for the language \<open>python\<close>.
\<close>

theorem anchors_beyond_end_skipped:
  "\<exists>ls blocks.
     apply_all language (splitlines True source) (sorted_props proposals) = Inr ls \<and>
     length ls = length (splitlines True source)
       + length (filter (anchored (length (splitlines True source))) proposals) \<and>
     apply_proposals_to_source source proposals language = Inr (concat ls) \<and>
     apply_proposals_to_source source
       (filter (anchored (length (splitlines True source))) proposals) language
       = Inr (concat ls) \<and>
     list_all2 (doc_block_of language) blocks
       (filter (anchored (length (splitlines True source))) (sorted_props proposals)) \<and>
     mset ls = mset (splitlines True source) + mset blocks \<and>
     subseq (splitlines True source) ls \<and>
     (\<forall>p \<in> set proposals.
        DocProposal.line p - 1 = int (length (splitlines True source)) \<longrightarrow>
        (\<exists>b. doc_block_of language b p \<and> subseq (splitlines True source @ [b]) ls)) \<and>
     (\<forall>p :: 'a DocProposal_scheme.
        DocProposal.line p - 1 = int (length (splitlines True source)) \<longrightarrow>
        apply_proposals_to_source source [p] language
        = Inr (source @ indent_doc (if language = lit ''python'' then lit ''    '' else [])
                          (with_newline (proposed_doc p))))"
proof -
  let ?lines = "splitlines True source"
  let ?n = "length ?lines"
  let ?sorted = "sorted_props proposals"
  from apply_all_descending [OF sorted_sorted_props, of language ?lines proposals]
  obtain ls where ls:
    "apply_all language ?lines ?sorted = Inr ls"
    "apply_all language ?lines (filter (anchored ?n) ?sorted) = Inr ls"
    "length ls = ?n + length (filter (anchored ?n) ?sorted)"
    by blast
  from apply_all_descending_blocks [OF sorted_sorted_props, of language ?lines proposals] ls(1)
  obtain blocks where blocks:
    "list_all2 (doc_block_of language) blocks (filter (anchored ?n) ?sorted)"
    "mset ls = mset ?lines + mset blocks"
    by auto
  have past: "\<exists>b. doc_block_of language b p \<and> subseq (?lines @ [b]) ls"
    if "p \<in> set proposals" "DocProposal.line p - 1 = int ?n" for p
  proof (rule past_end_after_source [where rest = "[]"])
    show "sorted (map (\<lambda>p. - DocProposal.line p) (filter (anchored ?n) ?sorted))"
      by (rule sorted_filter_sorted_props)
    show "\<forall>q \<in> set (filter (anchored ?n) ?sorted). DocProposal.line q - 1 \<le> int ?n"
      by (simp add: anchored_def)
    show "apply_all language (?lines @ []) (filter (anchored ?n) ?sorted) = Inr ls"
      using ls(2) by simp
    show "p \<in> set (filter (anchored ?n) ?sorted)"
      using that by (simp add: anchored_def sorted_props_def)
    show "DocProposal.line p - 1 = int ?n" by (rule that)
  qed
  have single: "apply_proposals_to_source source [p] language
        = Inr (source @ indent_doc (if language = lit ''python'' then lit ''    '' else [])
                          (with_newline (proposed_doc p)))"
    if "DocProposal.line p - 1 = int ?n" for p :: "'a DocProposal_scheme"
    using apply_one_past_last [OF that, of language]
    by (simp add: apply_proposals_to_source_def sorted_props_def splitlines_def
        concat_splitlines_from)
  from ls blocks apply_all_subseq [OF ls(1)] past single show ?thesis
    by (intro exI [of _ ls] exI [of _ blocks])
      (simp add: apply_proposals_to_source_def sorted_props_filter length_filter_sorted_props)
qed

theorem anchors_beyond_end_skipped_witness:
  "apply_proposals_to_source (lit ''a\<newline>'')
     [\<lparr>symbol_name = lit ''f'', line = 2, proposed_doc = lit ''/** F */''\<rparr>,
      \<lparr>symbol_name = lit ''g'', line = 9, proposed_doc = lit ''/** G */''\<rparr>,
      \<lparr>symbol_name = lit ''h'', line = 0, proposed_doc = lit ''/** H */''\<rparr>]
     (lit ''typescript'')
   = Inr (lit ''a\<newline>/** F */\<newline>'')
   \<and> filter (anchored (length (splitlines True (lit ''a\<newline>''))))
       [\<lparr>symbol_name = lit ''f'', line = 2, proposed_doc = lit ''/** F */''\<rparr>,
        \<lparr>symbol_name = lit ''g'', line = 9, proposed_doc = lit ''/** G */''\<rparr>,
        \<lparr>symbol_name = lit ''h'', line = 0, proposed_doc = lit ''/** H */''\<rparr>]
     = [\<lparr>symbol_name = lit ''f'', line = 2, proposed_doc = lit ''/** F */''\<rparr>]
   \<and> apply_proposals_to_source (lit ''a\<newline>'')
       [\<lparr>symbol_name = lit ''f'', line = 2, proposed_doc = lit ''/** F */''\<rparr>]
       (lit ''typescript'')
     = Inr (lit ''a\<newline>'' @ indent_doc [] (with_newline (lit ''/** F */'')))"
  using anchors_beyond_end_skipped
    [of "lit ''typescript''" "lit ''a\<newline>''"
        "[\<lparr>symbol_name = lit ''f'', line = 2, proposed_doc = lit ''/** F */''\<rparr>,
          \<lparr>symbol_name = lit ''g'', line = 9, proposed_doc = lit ''/** G */''\<rparr>,
          \<lparr>symbol_name = lit ''h'', line = 0, proposed_doc = lit ''/** H */''\<rparr>]"]
  by (simp add: apply_proposals_to_source_def sorted_props_def splitlines_def lit_Nil lit_Cons
      is_linebreak_def isspace_def apply_one_def Let_def py_get_def py_insert_def indent_doc_def
      endswith_def rstrip_def lstrip_def strip_def rstrip_chars_def anchored_def
      with_newline_def)

text \<open>
  The claim as it is written fails one past the last line. The source \<open>a\<close> has one
  line, so line 2 (index 1) is no line of the file; the proposal is not skipped, its doc
  is appended.
\<close>

theorem anchor_after_last_line_counterexample:
  "splitlines True (lit ''a\<newline>'') = [lit ''a\<newline>''] \<and>
   apply_proposals_to_source (lit ''a\<newline>'')
     [\<lparr>symbol_name = lit ''f'', line = 2, proposed_doc = lit ''/** F */''\<rparr>]
     (lit ''typescript'')
   = Inr (lit ''a\<newline>/** F */\<newline>'') \<and>
   apply_proposals_to_source (lit ''a\<newline>'')
     [\<lparr>symbol_name = lit ''f'', line = 2, proposed_doc = lit ''/** F */''\<rparr>]
     (lit ''typescript'')
   \<noteq> apply_proposals_to_source (lit ''a\<newline>'') [] (lit ''typescript'')"
  by (simp add: apply_proposals_to_source_def sorted_props_def splitlines_def lit_Nil lit_Cons
      is_linebreak_def isspace_def apply_one_def Let_def py_get_def py_insert_def indent_doc_def
      endswith_def rstrip_def lstrip_def strip_def rstrip_chars_def)

section \<open>Properties of the grammar-based analyzer\<close>

text \<open>
  Claim C4. When the parser raises a syntax error on the content, \<open>analyze\<close> returns
  the empty list of symbols; it does not raise.
\<close>

theorem syntax_error_gives_no_symbols:
  "parse content = Inl SyntaxError \<Longrightarrow> python_analyze u parse content = Inr []"
  by (simp add: python_analyze_def)

theorem syntax_error_gives_no_symbols_witness:
  "python_analyze ascii_casing (\<lambda>src. Inl SyntaxError) (lit ''def foo(:\<newline>    pass'')
   = Inr []"
  using syntax_error_gives_no_symbols
    [of "\<lambda>src. Inl SyntaxError" "lit ''def foo(:\<newline>    pass''" ascii_casing]
  by simp

lemma patch_is_verb: "lit ''PATCH'' \<in> set http_verbs"
  by (simp add: http_verbs_def lit_Nil lit_Cons)

text \<open>
  Claim C5 on the code. The decorator \<open>@mock.patch("os.getcwd")\<close> has the HTTP verb
  \<open>patch\<close> as its attribute and the receiver \<open>mock\<close>, which is none of \<open>app\<close>,
  \<open>router\<close>, \<open>api\<close>. The function reads the attribute only, never the receiver: with
  \<open>"patch".upper()\<close> being \<open>PATCH\<close>, the decorator is an endpoint, and the test
  function under it is reported as the endpoint \<open>PATCH os.getcwd\<close>.
\<close>

theorem verb_on_any_receiver:
  \<open>upper u (lit ''patch'') = lit ''PATCH'' \<Longrightarrow>
   decorator_to_endpoint u
     (Call (Attribute (Name (lit ''mock'')) (lit ''patch''))
        [Constant (StrConst (lit ''os.getcwd''))] [])
   = Inr (Some (lit ''PATCH'', lit ''os.getcwd''))
   \<and> python_analyze u
       (\<lambda>src. Inr (Other [FunctionDef (lit ''test_cwd'')
          [Call (Attribute (Name (lit ''mock'')) (lit ''patch''))
             [Constant (StrConst (lit ''os.getcwd''))] []]
          [Other []] 2 (Some 3)]))
       (lit ''@mock.patch("os.getcwd")\<newline>def test_cwd(m):\<newline>    pass\<newline>'')
     = Inr [\<lparr>name = lit ''test_cwd'', line = 2, type = Endpoint, has_docs = False,
             endpoint_method = Some (lit ''PATCH''), endpoint_path = Some (lit ''os.getcwd''),
             source_lines = [lit ''def test_cwd(m):'', lit ''    pass'']\<rparr>]\<close>
  using patch_is_verb
  by (simp add: lit_Nil lit_Cons Let_def py_slice_def slice_index_def startswith_def
      isspace_def is_linebreak_def python_analyze_def walk_def
      symbol_of_def_def splitlines_def)

theorem verb_on_any_receiver_witness:
  \<open>decorator_to_endpoint ascii_casing
     (Call (Attribute (Name (lit ''mock'')) (lit ''patch''))
        [Constant (StrConst (lit ''os.getcwd''))] [])
   = Inr (Some (lit ''PATCH'', lit ''os.getcwd''))
   \<and> python_analyze ascii_casing
       (\<lambda>src. Inr (Other [FunctionDef (lit ''test_cwd'')
          [Call (Attribute (Name (lit ''mock'')) (lit ''patch''))
             [Constant (StrConst (lit ''os.getcwd''))] []]
          [Other []] 2 (Some 3)]))
       (lit ''@mock.patch("os.getcwd")\<newline>def test_cwd(m):\<newline>    pass\<newline>'')
     = Inr [\<lparr>name = lit ''test_cwd'', line = 2, type = Endpoint, has_docs = False,
             endpoint_method = Some (lit ''PATCH''), endpoint_path = Some (lit ''os.getcwd''),
             source_lines = [lit ''def test_cwd(m):'', lit ''    pass'']\<rparr>]\<close>
  using verb_on_any_receiver [of ascii_casing]
  by (simp add: ascii_casing_def lit_Nil lit_Cons)

lemma route_method_none:
  "\<forall>kw \<in> set kws. fst kw \<noteq> Some (lit ''methods'') \<Longrightarrow> route_method u kws = Inr None"
  by (induction u kws rule: route_method.induct) auto

lemma route_not_verb: "lit ''ROUTE'' \<notin> set http_verbs"
  by (simp add: http_verbs_def lit_Nil lit_Cons)

text \<open>
  Claim C8, as the code has it. A decorator call whose function is an attribute named
  \<open>route\<close> (in any case), whose first argument is a constant and which has no
  \<open>methods\<close> keyword, does what \<open>str()\<close> does on that constant: where \<open>str()\<close>
  returns, it is the endpoint with method \<open>GET\<close> and that text as its path, and where
  \<open>str()\<close> raises, the function raises the same exception. On a string constant
  \<open>str()\<close> returns the string: the endpoint is \<open>GET\<close> with that path, and nothing is
  raised.
\<close>

theorem route_defaults_to_get:
  assumes "upper u attr = lit ''ROUTE''"
    and "\<forall>kw \<in> set keywords. fst kw \<noteq> Some (lit ''methods'')"
  shows "decorator_to_endpoint u (Call (Attribute receiver attr) (Constant c # args) keywords)
         = (case py_str c of
              Inl e \<Rightarrow> Inl e
            | Inr path \<Rightarrow> Inr (Some (lit ''GET'', path)))
         \<and> decorator_to_endpoint u
             (Call (Attribute receiver attr) (Constant (StrConst path) # args) keywords)
           = Inr (Some (lit ''GET'', path))"
  using assms route_not_verb by (simp add: route_method_none split: sum.splits)

theorem route_defaults_to_get_witness:
  "decorator_to_endpoint ascii_casing
     (Call (Attribute (Name (lit ''app'')) (lit ''route''))
        [Constant (StrConst (lit ''/items''))] [(Some (lit ''strict_slashes''), OtherExpr)])
   = Inr (Some (lit ''GET'', lit ''/items''))"
  using route_defaults_to_get
    [of ascii_casing "lit ''route''" "[(Some (lit ''strict_slashes''), OtherExpr)]"
        "Name (lit ''app'')" "StrConst (lit ''/items'')" "[]" "lit ''/items''"]
  by (simp add: ascii_casing_def lit_Nil lit_Cons)

lemma less_le_abs_pred: "(x::int) < y \<Longrightarrow> y \<le> z \<Longrightarrow> x \<le> \<bar>z - 1\<bar>"
  by linarith

lemma str_hex_5000_digits: "py_str (IntConst hex_5000_digits) = Inl ValueError"
proof -
  have a: "(10::int) ^ 4300 < 16 ^ 4300"
    by (rule power_strict_mono) simp_all
  have b: "(16::int) ^ 4300 \<le> 16 ^ 5000"
    by (rule power_increasing) simp_all
  have "(10::int) ^ int_max_str_digits \<le> \<bar>hex_5000_digits\<bar>"
    unfolding int_max_str_digits_def hex_5000_digits_def
    using a b by (rule less_le_abs_pred)
  then show ?thesis
    unfolding py_str.simps by (rule if_P)
qed

text \<open>
  The claim as it is written fails on a constant that \<open>str()\<close> refuses: under
  \<open>@app.route(0xff...f)\<close> with 5000 hexadecimal digits the argument is a constant and
  there is no \<open>methods\<close> keyword, and the function raises \<open>ValueError\<close>.
\<close>

theorem route_huge_int_counterexample:
  "decorator_to_endpoint ascii_casing
     (Call (Attribute (Name (lit ''app'')) (lit ''route''))
        [Constant (IntConst hex_5000_digits)] [])
   = Inl ValueError"
  using route_not_verb
  by (simp add: ascii_casing_def lit_Nil lit_Cons str_hex_5000_digits del: py_str.simps)

section \<open>Properties of the pattern-based analyzer\<close>

lemma ws_to_end_iff: "ws_to_end s \<longleftrightarrow> list_all isspace s"
  by (induction s) (auto simp: isspace_def)

lemma startswith_append: "startswith s pre \<longleftrightarrow> (\<exists>rest. s = pre @ rest)"
  unfolding startswith_def
  by (metis append_eq_conv_conj append_take_drop_id)

lemma comment_close_iff:
  "comment_close s \<longleftrightarrow> (\<exists>mid ws. s = mid @ lit ''*/'' @ ws \<and> list_all isspace ws)"
proof (induction s)
  case Nil
  then show ?case by (simp add: lit_Nil lit_Cons)
next
  case (Cons c cs)
  have len: "length (lit ''*/'') = 2" by (simp add: lit_def)
  show ?case
  proof
    assume "comment_close (c # cs)"
    then consider (here) "startswith (c # cs) (lit ''*/'')" "ws_to_end (drop 2 (c # cs))"
      | (later) "comment_close cs" by auto
    then show "\<exists>mid ws. c # cs = mid @ lit ''*/'' @ ws \<and> list_all isspace ws"
    proof cases
      case here
      from here(1) obtain rest where r: "c # cs = lit ''*/'' @ rest"
        by (auto simp: startswith_append)
      then have "drop 2 (c # cs) = rest" using len by simp
      with here(2) have "list_all isspace rest" by (simp add: ws_to_end_iff)
      with r show ?thesis by (intro exI [of _ "[]"] exI [of _ rest]) simp
    next
      case later
      with Cons.IH obtain mid ws where "cs = mid @ lit ''*/'' @ ws" "list_all isspace ws" by blast
      then show ?thesis by (intro exI [of _ "c # mid"] exI [of _ ws]) simp
    qed
  next
    assume "\<exists>mid ws. c # cs = mid @ lit ''*/'' @ ws \<and> list_all isspace ws"
    then obtain mid ws where m: "c # cs = mid @ lit ''*/'' @ ws" "list_all isspace ws" by blast
    show "comment_close (c # cs)"
    proof (cases mid)
      case Nil
      with m have "startswith (c # cs) (lit ''*/'')" "drop 2 (c # cs) = ws"
        using len by (auto simp: startswith_append)
      with m(2) show ?thesis by (simp add: ws_to_end_iff)
    next
      case (Cons d ds)
      with m have "cs = ds @ lit ''*/'' @ ws" by simp
      with m(2) Cons.IH have "comment_close cs" by blast
      then show ?thesis by simp
    qed
  qed
qed

lemma jsdoc_search_iff:
  "jsdoc_search s \<longleftrightarrow>
     (\<exists>pre mid ws. s = pre @ lit ''/**'' @ mid @ lit ''*/'' @ ws \<and> list_all isspace ws)"
proof (induction s)
  case Nil
  then show ?case by (simp add: lit_Nil lit_Cons)
next
  case (Cons c cs)
  have len: "length (lit ''/**'') = 3" by (simp add: lit_def)
  show ?case
  proof
    assume "jsdoc_search (c # cs)"
    then consider (here) "startswith (c # cs) (lit ''/**'')" "comment_close (drop 3 (c # cs))"
      | (later) "jsdoc_search cs" by auto
    then show "\<exists>pre mid ws. c # cs = pre @ lit ''/**'' @ mid @ lit ''*/'' @ ws \<and> list_all isspace ws"
    proof cases
      case here
      from here(1) obtain rest where r: "c # cs = lit ''/**'' @ rest"
        by (auto simp: startswith_append)
      then have "drop 3 (c # cs) = rest" using len by simp
      with here(2) obtain mid ws where "rest = mid @ lit ''*/'' @ ws" "list_all isspace ws"
        by (auto simp: comment_close_iff)
      with r show ?thesis by (intro exI [of _ "[]"] exI [of _ mid] exI [of _ ws]) simp
    next
      case later
      with Cons.IH obtain pre mid ws
        where "cs = pre @ lit ''/**'' @ mid @ lit ''*/'' @ ws" "list_all isspace ws" by blast
      then show ?thesis by (intro exI [of _ "c # pre"] exI [of _ mid] exI [of _ ws]) simp
    qed
  next
    assume "\<exists>pre mid ws. c # cs = pre @ lit ''/**'' @ mid @ lit ''*/'' @ ws \<and> list_all isspace ws"
    then obtain pre mid ws
      where m: "c # cs = pre @ lit ''/**'' @ mid @ lit ''*/'' @ ws" "list_all isspace ws" by blast
    show "jsdoc_search (c # cs)"
    proof (cases pre)
      case Nil
      with m have "startswith (c # cs) (lit ''/**'')" "drop 3 (c # cs) = mid @ lit ''*/'' @ ws"
        using len by (auto simp: startswith_append)
      with m(2) show ?thesis by (auto simp: comment_close_iff)
    next
      case (Cons d ds)
      with m have "cs = ds @ lit ''/**'' @ mid @ lit ''*/'' @ ws" by simp
      with m(2) Cons.IH have "jsdoc_search cs" by blast
      then show ?thesis by simp
    qed
  qed
qed

text \<open>
  Claim C6, as the code has it. The candidate line at index \<open>func_line_idx\<close> has
  documentation if and only if the index is not 0 and, in the up to 20 lines before it
  joined by newlines, an opening token \<open>/**\<close> is followed by a closing token \<open>*/\<close>
  after which nothing but white space is left up to the end of the window: the block
  has to end right before the candidate line.
\<close>

theorem jsdoc_needs_adjacent_block:
  "has_jsdoc_before lines func_line_idx \<longleftrightarrow>
     func_line_idx \<noteq> 0 \<and>
     (\<exists>pre mid ws.
        join (lit ''\<newline>'') (py_slice lines (max 0 (func_line_idx - 20)) func_line_idx)
          = pre @ lit ''/**'' @ mid @ lit ''*/'' @ ws
        \<and> list_all isspace ws)"
  by (simp add: has_jsdoc_before_def Let_def jsdoc_search_iff)

text \<open>
  The claim as it is written fails when code stands between the block and the
  candidate: the window of line 2 holds the whole block \<open>/** doc */\<close> of line 0, and
  the line is judged to have no documentation.
\<close>

theorem jsdoc_far_above_counterexample:
  "block_comment_anywhere
     (join (lit ''\<newline>'')
        (py_slice [lit ''/** doc */'', lit ''const x = 1;'', lit ''function foo() {}'']
           (max 0 (2 - 20)) 2))
   \<and> \<not> has_jsdoc_before
         [lit ''/** doc */'', lit ''const x = 1;'', lit ''function foo() {}''] 2"
  by (simp add: lit_Nil lit_Cons has_jsdoc_before_def Let_def py_slice_def slice_index_def
      startswith_def isspace_def)

text \<open>
  Claim C7. The base path \<open>/api/\<close> and the method path \<open>users\<close> give exactly
  \<open>/api/users\<close>; with that controller and a \<open>@Get("users")\<close> decorator, \<open>"Get".upper()\<close>
  being \<open>GET\<close>, each of the five lines after the decorator is mapped to
  \<open>GET /api/users\<close>.
\<close>

theorem api_users_path_normalized:
  "nest_full_path (lit ''/api/'') (lit ''users'') = lit ''/api/users'' \<and>
   (upper u (lit ''Get'') = lit ''GET'' \<longrightarrow>
    nestjs_endpoints u
      \<lparr>controller_match = Some (Some (lit ''/api/'')),
       nestjs_matches = [(start, lit ''Get'', Some (lit ''users''))],
       express_matches = es, func_matches = fs\<rparr> content
    = map (\<lambda>offset. (line_of content start + offset, lit ''GET'', lit ''/api/users''))
        [1..<6])"
  by (simp add: nestjs_endpoints_def add_nestjs_def Let_def or_empty_def nest_full_path_def
      strip_chars_def lstrip_chars_def rstrip_chars_def startswith_def lit_Nil lit_Cons
      upt_conv_Cons)

theorem api_users_path_normalized_witness:
  \<open>nestjs_endpoints ascii_casing
     \<lparr>controller_match = Some (Some (lit ''/api/'')),
      nestjs_matches = [(21, lit ''Get'', Some (lit ''users''))],
      express_matches = [], func_matches = [[(35, lit ''list'')], [], []]\<rparr>
     (lit ''@Controller("/api/")\<newline>@Get("users")\<newline>function list() {}\<newline>'')
   = [(2, lit ''GET'', lit ''/api/users''), (3, lit ''GET'', lit ''/api/users''),
      (4, lit ''GET'', lit ''/api/users''), (5, lit ''GET'', lit ''/api/users''),
      (6, lit ''GET'', lit ''/api/users'')]\<close>
  using api_users_path_normalized
    [of ascii_casing 21 "[]" "[[(35, lit ''list'')], [], []]"
        \<open>lit ''@Controller("/api/")\<newline>@Get("users")\<newline>function list() {}\<newline>''\<close>]
  by (simp add: ascii_casing_def line_of_def lit_Nil lit_Cons upt_conv_Cons)

section \<open>The invariant of the symbols\<close>

lemma symbol_of_def_paired:
  "symbol_of_def u lines nm ds body l e = Inr (Some s) \<Longrightarrow> endpoint_paired s"
  by (auto simp: symbol_of_def_def endpoint_paired_def Let_def split: if_splits sum.splits)

lemma symbol_of_paired: "symbol_of u lines n = Inr (Some s) \<Longrightarrow> endpoint_paired s"
  by (cases n) (auto dest: symbol_of_def_paired)

lemma collect_symbols_paired:
  "collect_symbols u lines nodes = Inr symbols \<Longrightarrow> s \<in> set symbols \<Longrightarrow> endpoint_paired s"
proof (induction nodes arbitrary: symbols)
  case Nil
  then show ?case by simp
next
  case (Cons n nodes)
  from Cons.prems(1) obtain found rest
    where f: "symbol_of u lines n = Inr found" "collect_symbols u lines nodes = Inr rest"
      "symbols = (case found of None \<Rightarrow> rest | Some s \<Rightarrow> s # rest)"
    by (auto split: sum.splits)
  show ?case
  proof (cases "s \<in> set rest")
    case True
    with Cons.IH [OF f(2)] show ?thesis .
  next
    case False
    with Cons.prems(2) f(3) have "found = Some s" by (cases found) auto
    with f(1) show ?thesis by (auto intro: symbol_of_paired)
  qed
qed

lemma python_symbols_paired:
  assumes "python_analyze u parse content = Inr symbols" and "s \<in> set symbols"
  shows "endpoint_paired s"
proof (cases "parse content")
  case (Inl e)
  with assms(1) have "symbols = []"
    by (cases e) (simp_all add: python_analyze_def)
  with assms(2) show ?thesis by simp
next
  case (Inr tree)
  with assms(1) have "collect_symbols u (splitlines False content) (walk tree) = Inr symbols"
    by (simp add: python_analyze_def)
  from collect_symbols_paired [OF this assms(2)] show ?thesis .
qed

lemma detect_function_paired:
  "\<forall>s \<in> set (fst st). endpoint_paired s \<Longrightarrow>
   \<forall>s \<in> set (fst (detect_function content lines express nestjs st m)). endpoint_paired s"
  by (cases st; cases m) (auto simp: detect_function_def endpoint_paired_def Let_def)

lemma detect_standalone_paired:
  "\<forall>s \<in> set (fst st). endpoint_paired s \<Longrightarrow>
   \<forall>s \<in> set (fst (detect_standalone u lines st item)). endpoint_paired s"
  by (cases st; cases item) (auto simp: detect_standalone_def endpoint_paired_def Let_def)

lemma foldl_invariant:
  "P st \<Longrightarrow> (\<And>st x. P st \<Longrightarrow> P (f st x)) \<Longrightarrow> P (foldl f st xs)"
  by (induction xs arbitrary: st) simp_all

lemma typescript_symbols_paired:
  "s \<in> set (typescript_analyze u ms content) \<Longrightarrow> endpoint_paired s"
proof -
  let ?P = "\<lambda>st :: detect_state. \<forall>s \<in> set (fst st). endpoint_paired s"
  let ?lines = "splitlines False content"
  let ?nest = "nestjs_endpoints u ms content"
  let ?express = "express_endpoints u ms content"
  let ?st1 = "foldl (\<lambda>st pattern_matches.
                  foldl (detect_function content ?lines ?express ?nest) st pattern_matches)
               ([], {}) (func_matches ms)"
  have "?P ?st1"
  proof (rule foldl_invariant)
    show "?P ([], {})" by simp
  next
    fix st :: detect_state and xs
    assume "?P st"
    then show "?P (foldl (detect_function content ?lines ?express ?nest) st xs)"
      by (rule foldl_invariant) (rule detect_function_paired)
  qed
  then have "?P (foldl (detect_standalone u ?lines) ?st1 ?express)"
    by (rule foldl_invariant) (rule detect_standalone_paired)
  moreover assume "s \<in> set (typescript_analyze u ms content)"
  ultimately show ?thesis by (simp add: typescript_analyze_def Let_def)
qed

text \<open>
  Claim C9. Every symbol either analyzer returns has \<open>endpoint_method\<close> and
  \<open>endpoint_path\<close> both present or both absent: for every content, every parser and
  every tree it returns, and for every content and every list of pattern matches.
\<close>

theorem endpoint_fields_paired:
  "(python_analyze u parse content = Inr symbols \<longrightarrow>
      (\<forall>s \<in> set symbols. (endpoint_method s = None) = (endpoint_path s = None)))
   \<and> (\<forall>s \<in> set (typescript_analyze u' ms content').
         (endpoint_method s = None) = (endpoint_path s = None))"
  using python_symbols_paired typescript_symbols_paired
  unfolding endpoint_paired_def by blast

theorem endpoint_fields_paired_witness:
  \<open>python_analyze ascii_casing
     (\<lambda>src. Inr (Other [AsyncFunctionDef (lit ''get_users'')
        [Call (Attribute (Name (lit ''app'')) (lit ''get''))
           [Constant (StrConst (lit ''/users''))] []]
        [Other []] 2 (Some 3)]))
     (lit ''@app.get("/users")\<newline>async def get_users():\<newline>    return []\<newline>'')
   = Inr [\<lparr>name = lit ''get_users'', line = 2, type = Endpoint, has_docs = False,
           endpoint_method = Some (lit ''GET''), endpoint_path = Some (lit ''/users''),
           source_lines = [lit ''async def get_users():'', lit ''    return []'']\<rparr>]
   \<and> typescript_analyze ascii_casing
       \<lparr>controller_match = Some (Some (lit ''/api/'')),
        nestjs_matches = [(21, lit ''Get'', Some (lit ''users''))],
        express_matches = [],
        func_matches = [[(35, lit ''list'')], [], []]\<rparr>
       (lit ''@Controller("/api/")\<newline>@Get("users")\<newline>function list() {}\<newline>'')
     = [\<lparr>name = lit ''list'', line = 3, type = Endpoint, has_docs = False,
         endpoint_method = Some (lit ''GET''), endpoint_path = Some (lit ''/api/users''),
         source_lines = [lit ''function list() {}'']\<rparr>]\<close>
  using endpoint_fields_paired
    [of ascii_casing
        "\<lambda>src. Inr (Other [AsyncFunctionDef (lit ''get_users'')
            [Call (Attribute (Name (lit ''app'')) (lit ''get''))
               [Constant (StrConst (lit ''/users''))] []]
            [Other []] 2 (Some 3)])"
        \<open>lit ''@app.get("/users")\<newline>async def get_users():\<newline>    return []\<newline>''\<close>
        "[\<lparr>name = lit ''get_users'', line = 2, type = Endpoint, has_docs = False,
           endpoint_method = Some (lit ''GET''), endpoint_path = Some (lit ''/users''),
           source_lines = [lit ''async def get_users():'', lit ''    return []'']\<rparr>]"
        ascii_casing
        "\<lparr>controller_match = Some (Some (lit ''/api/'')),
          nestjs_matches = [(21, lit ''Get'', Some (lit ''users''))],
          express_matches = [],
          func_matches = [[(35, lit ''list'')], [], []]\<rparr>"
        \<open>lit ''@Controller("/api/")\<newline>@Get("users")\<newline>function list() {}\<newline>''\<close>]
  by (simp add: lit_Nil lit_Cons Let_def py_slice_def slice_index_def startswith_def
      isspace_def is_linebreak_def ascii_casing_def http_verbs_def splitlines_def
      python_analyze_def walk_def symbol_of_def_def
      typescript_analyze_def nestjs_endpoints_def express_endpoints_def add_nestjs_def
      nest_full_path_def strip_chars_def lstrip_chars_def rstrip_chars_def or_empty_def
      line_of_def detect_function_def detect_standalone_def endpoint_near_def
      has_jsdoc_before_def upt_conv_Cons)

end
